theory Spec2Isabelle
  imports Complex_Main
begin

section \<open>Maximum likelihood amplitude estimation: the data model\<close>

text \<open>
  The development embeds \<^verbatim>\<open>qiskit/algorithms/amplitude_estimators/mlae.py\<close>.
  Python and numpy floats are modelled by the reals, Python integers by \<open>int\<close>.
  Exceptions are values of the type \<open>error\<close>; a function that can raise returns
  \<open>error + 'a\<close>, with \<open>Inl\<close> for the exception. numpy does not raise on a division
  by zero or on the logarithm of zero (it yields \<open>inf\<close>, \<open>-inf\<close> or \<open>nan\<close> and a
  warning); the real-valued model has HOL's value of the same expression at those
  points, so statements about values are meant where the denominators and the
  arguments of the logarithm are not zero.
\<close>

datatype error = ValueError | IndexError | NotImplementedError

text \<open>
  One entry of \<^verbatim>\<open>result.circuit_results\<close>: a statevector (a list or an
  \<^verbatim>\<open>np.ndarray\<close> of amplitudes) or a dictionary of counts.
\<close>

datatype circuit_result = Statevector "complex list" | Counts "(string \<times> int) list"

fun is_array :: "circuit_result \<Rightarrow> bool" where
  "is_array (Statevector v) = True"
| "is_array (Counts c) = False"

text \<open>
  The result object with the attributes \<^verbatim>\<open>estimate\<close> assigns: every field holds a value.
\<close>

record mlae_result =
  circuit_results :: "circuit_result list"
  evaluation_schedule :: "int list"
  good_counts :: "real list"
  shots :: int
  theta :: real
  estimation :: real
  fisher_information :: real
  post_processing :: "real \<Rightarrow> real"

text \<open>The test of line 206: every circuit result is a list or an array.\<close>

definition is_statevector_result :: "mlae_result \<Rightarrow> bool" where
  "is_statevector_result r = list_all is_array (circuit_results r)"

section \<open>Python helpers\<close>

text \<open>\<^verbatim>\<open>int(x)\<close> on a float truncates toward zero.\<close>

definition py_int :: "real \<Rightarrow> int" where
  "py_int x = (if 0 \<le> x then \<lfloor>x\<rfloor> else \<lceil>x\<rceil>)"

text \<open>\<^verbatim>\<open>xs[-1]\<close> raises IndexError on an empty list.\<close>

fun py_last :: "'a list \<Rightarrow> error + 'a" where
  "py_last [] = Inl IndexError"
| "py_last (x # xs) = Inr (last (x # xs))"

text \<open>The slice \<^verbatim>\<open>xs[:m]\<close>; a negative \<open>m\<close> counts from the end.\<close>

definition py_slice_to :: "int \<Rightarrow> 'a list \<Rightarrow> 'a list" where
  "py_slice_to m xs =
     (if 0 \<le> m then take (nat m) xs else take (length xs - nat (- m)) xs)"

text \<open>Running a fallible function over a list stops at the first exception.\<close>

fun map_result :: "('a \<Rightarrow> error + 'b) \<Rightarrow> 'a list \<Rightarrow> error + 'b list" where
  "map_result f [] = Inr []"
| "map_result f (x # xs) =
     (case f x of
        Inl e \<Rightarrow> Inl e
      | Inr y \<Rightarrow> (case map_result f xs of Inl e \<Rightarrow> Inl e | Inr ys \<Rightarrow> Inr (y # ys)))"

section \<open>The constructor\<close>

datatype schedule_arg = ScheduleInt int | ScheduleList "int list"

type_synonym minimizer_fn = "(real \<Rightarrow> real) \<Rightarrow> (real \<times> real) list \<Rightarrow> real"

text \<open>
  The stored minimizer: the default closure over \<^verbatim>\<open>brute\<close> with its captured
  \<^verbatim>\<open>Ns=nevals\<close>, or the caller's function.
\<close>

datatype minimizer = DefaultBrute int | Custom minimizer_fn

record mlae =
  mlae_evaluation_schedule :: "int list"
  mlae_minimizer :: minimizer

text \<open>
  Lines 97 and 521: \<^verbatim>\<open>max(10000, int(np.pi / 2 * 1000 * 2 * schedule[-1]))\<close>.
\<close>

definition default_nevals :: "int list \<Rightarrow> error + int" where
  "default_nevals schedule =
     (case py_last schedule of
        Inl e \<Rightarrow> Inl e
      | Inr k \<Rightarrow> Inr (max 10000 (py_int (pi / 2 * 1000 * 2 * real_of_int k))))"

definition init_schedule :: "schedule_arg \<Rightarrow> error + int list" where
  "init_schedule sched_arg =
     (case sched_arg of
        ScheduleInt n \<Rightarrow>
          if n < 0 then Inl ValueError
          else Inr ([0] @ map (\<lambda>j. 2 ^ j) [0..<nat n])
      | ScheduleList ks \<Rightarrow>
          if list_ex (\<lambda>v. v < 0) ks then Inl ValueError
          else Inr ks)"

definition init :: "schedule_arg \<Rightarrow> minimizer_fn option \<Rightarrow> error + mlae" where
  "init sched_arg minimizer =
     (case init_schedule sched_arg of
        Inl e \<Rightarrow> Inl e
      | Inr schedule \<Rightarrow>
          (case minimizer of
             None \<Rightarrow>
               (case default_nevals schedule of
                  Inl e \<Rightarrow> Inl e
                | Inr nevals \<Rightarrow>
                    Inr \<lparr>mlae_evaluation_schedule = schedule,
                         mlae_minimizer = DefaultBrute nevals\<rparr>)
           | Some m \<Rightarrow>
               Inr \<lparr>mlae_evaluation_schedule = schedule,
                    mlae_minimizer = Custom m\<rparr>))"

section \<open>The log-likelihood\<close>

text \<open>
  The loop of lines 255--259 (and 524--527) over \<^verbatim>\<open>enumerate(schedule)\<close>, with the
  accumulator \<^verbatim>\<open>loglik\<close>; indexing a list of counts that is too short raises.
\<close>

fun loglik_loop :: "real \<Rightarrow> real list \<Rightarrow> real list \<Rightarrow> (nat \<times> int) list \<Rightarrow> real \<Rightarrow> error + real" where
  "loglik_loop th one_counts all_counts [] loglik = Inr loglik"
| "loglik_loop th one_counts all_counts ((i, k) # rest) loglik =
     (if i < length one_counts then
        (let angle = real_of_int (2 * k + 1) * th;
             loglik1 = loglik + ln ((sin angle)\<^sup>2) * (one_counts ! i)
         in if i < length all_counts then
              loglik_loop th one_counts all_counts rest
                (loglik1 + ln ((cos angle)\<^sup>2) * (all_counts ! i - one_counts ! i))
            else Inl IndexError)
      else Inl IndexError)"

text \<open>The objective \<^verbatim>\<open>loglikelihood\<close> of \<^verbatim>\<open>compute_mle\<close>: the negated sum.\<close>

definition mle_loglikelihood :: "int list \<Rightarrow> real list \<Rightarrow> real list \<Rightarrow> real \<Rightarrow> error + real" where
  "mle_loglikelihood schedule good_cnts all_cnts th =
     (case loglik_loop th good_cnts all_cnts (enumerate 0 schedule) 0 of
        Inl e \<Rightarrow> Inl e
      | Inr loglik \<Rightarrow> Inr (- loglik))"

text \<open>The \<^verbatim>\<open>loglikelihood\<close> of \<^verbatim>\<open>_likelihood_ratio_confint\<close>: not negated.\<close>

definition lr_loglikelihood :: "mlae_result \<Rightarrow> real list \<Rightarrow> real list \<Rightarrow> real \<Rightarrow> error + real" where
  "lr_loglikelihood r one_counts all_counts th =
     loglik_loop th one_counts all_counts (enumerate 0 (evaluation_schedule r)) 0"

section \<open>Fisher information\<close>

text \<open>
  \<^verbatim>\<open>_compute_fisher_information\<close>. The three lists are zipped, so the loop runs to the
  shortest; \<^verbatim>\<open>all_hits\<close> is never truncated.
\<close>

definition compute_fisher_information :: "mlae_result \<Rightarrow> int option \<Rightarrow> bool \<Rightarrow> real" where
  "compute_fisher_information r num_sum_terms observed =
     (let a = estimation r;
          theta_a = arcsin (sqrt a);
          one_hits = good_counts r;
          all_hits = replicate (length one_hits) (real_of_int (shots r));
          schedule = (case num_sum_terms of
                        None \<Rightarrow> evaluation_schedule r
                      | Some m \<Rightarrow> py_slice_to m (evaluation_schedule r))
      in if observed then
           (let d_loglik =
                  foldl (\<lambda>d (shots_k, h_k, m_k).
                           d + real_of_int (2 * m_k + 1) *
                               (h_k / tan (real_of_int (2 * m_k + 1) * theta_a)
                                + (shots_k - h_k) * tan (real_of_int (2 * m_k + 1) * theta_a)))
                        0 (zip all_hits (zip one_hits schedule));
                d_loglik1 = d_loglik / sqrt (a * (1 - a))
            in d_loglik1\<^sup>2 / real (length all_hits))
         else
           sum_list (map (\<lambda>(shots_k, m_k). shots_k * (real_of_int (2 * m_k + 1))\<^sup>2)
                         (zip all_hits schedule))
           / (a * (1 - a)))"

section \<open>Confidence intervals\<close>

text \<open>
  \<^verbatim>\<open>scipy.stats.norm.ppf\<close> and \<^verbatim>\<open>scipy.stats.chi2.ppf(., df=1)\<close> are library
  functions outside the repository: the model takes them as the parameters
  \<open>norm_ppf\<close> and \<open>chi2_ppf\<close>.
\<close>

definition fisher_confint :: "(real \<Rightarrow> real) \<Rightarrow> mlae_result \<Rightarrow> real \<Rightarrow> bool \<Rightarrow> real \<times> real" where
  "fisher_confint norm_ppf r alpha observed =
     (let fi = (if observed then compute_fisher_information r None True
                else fisher_information r);
          normal_quantile = norm_ppf (1 - alpha / 2);
          lo = estimation r + normal_quantile / sqrt fi * (- 1);
          hi = estimation r + normal_quantile / sqrt fi * 1
      in (post_processing r lo, post_processing r hi))"

text \<open>
  \<^verbatim>\<open>np.linspace(start, stop, num)\<close>: \<open>num\<close> points from \<open>start\<close> to \<open>stop\<close>
  inclusive; a negative \<open>num\<close> raises ValueError.
\<close>

definition linspace_points :: "real \<Rightarrow> real \<Rightarrow> int \<Rightarrow> real list" where
  "linspace_points start stop num =
     map (\<lambda>i. start + real i * ((stop - start) / real (nat num - 1))) [0..<nat num]"

definition linspace :: "real \<Rightarrow> real \<Rightarrow> int \<Rightarrow> error + real list" where
  "linspace start stop num =
     (if num < 0 then Inl ValueError else Inr (linspace_points start stop num))"

definition safe_min :: "real list \<Rightarrow> real \<Rightarrow> real" where
  "safe_min array dflt = (if length array = 0 then dflt else Min (set array))"

definition safe_max :: "real list \<Rightarrow> real \<Rightarrow> real" where
  "safe_max array dflt = (if length array = 0 then dflt else Max (set array))"

definition eps :: real where
  "eps = 1 / 10 ^ 15"

text \<open>The grid angles whose log-likelihood reaches the threshold (line 544).\<close>

definition above_threshold :: "real list \<Rightarrow> real list \<Rightarrow> real \<Rightarrow> real list" where
  "above_threshold thetas vals thres =
     map fst (filter (\<lambda>(t, v). v \<ge> thres) (zip thetas vals))"

text \<open>Lines 520--521: the number of grid points, adaptive unless the caller gives it.\<close>

definition lr_nevals :: "mlae_result \<Rightarrow> int option \<Rightarrow> error + int" where
  "lr_nevals r nevals =
     (case nevals of
        None \<Rightarrow> default_nevals (evaluation_schedule r)
      | Some n \<Rightarrow> Inr n)"

definition likelihood_ratio_confint ::
  "(real \<Rightarrow> real) \<Rightarrow> mlae_result \<Rightarrow> real \<Rightarrow> int option \<Rightarrow> error + real \<times> real" where
  "likelihood_ratio_confint chi2_ppf r alpha nevals =
     (case lr_nevals r nevals of
        Inl e \<Rightarrow> Inl e
      | Inr n \<Rightarrow>
          (let one_counts = good_counts r;
               all_counts = replicate (length one_counts) (real_of_int (shots r))
           in case linspace (0 + eps) (pi / 2 - eps) n of
                Inl e \<Rightarrow> Inl e
              | Inr thetas \<Rightarrow>
                  (case map_result (lr_loglikelihood r one_counts all_counts) thetas of
                     Inl e \<Rightarrow> Inl e
                   | Inr vals \<Rightarrow>
                       (case lr_loglikelihood r one_counts all_counts (theta r) of
                          Inl e \<Rightarrow> Inl e
                        | Inr loglik_mle \<Rightarrow>
                            (let chi2_quantile = chi2_ppf (1 - alpha);
                                 thres = loglik_mle - chi2_quantile / 2;
                                 above_thres = above_threshold thetas vals thres;
                                 lo = safe_min above_thres 0;
                                 hi = safe_max above_thres (pi / 2)
                             in Inr (post_processing r ((sin lo)\<^sup>2),
                                     post_processing r ((sin hi)\<^sup>2)))))))"

text \<open>
  \<^verbatim>\<open>compute_confidence_interval\<close>: the statevector test comes first, then the method
  names in the order of the source; \<open>None\<close> is the \<^verbatim>\<open>interval = None\<close> left by
  an unknown name.
\<close>

definition select_interval ::
  "(real \<Rightarrow> real) \<Rightarrow> (real \<Rightarrow> real) \<Rightarrow> mlae_result \<Rightarrow> real \<Rightarrow> string \<Rightarrow> error + (real \<times> real) option" where
  "select_interval norm_ppf chi2_ppf r alpha kind =
     (if list_all is_array (circuit_results r) then
        Inr (Some (estimation r, estimation r))
      else if kind \<in> set [''likelihood_ratio'', ''lr''] then
        (case likelihood_ratio_confint chi2_ppf r alpha None of
           Inl e \<Rightarrow> Inl e
         | Inr iv \<Rightarrow> Inr (Some iv))
      else if kind \<in> set [''fisher'', ''fi''] then
        Inr (Some (fisher_confint norm_ppf r alpha False))
      else if kind \<in> set [''observed_fisher'', ''observed_information'', ''oi''] then
        Inr (Some (fisher_confint norm_ppf r alpha True))
      else Inr None)"

definition compute_confidence_interval ::
  "(real \<Rightarrow> real) \<Rightarrow> (real \<Rightarrow> real) \<Rightarrow> mlae_result \<Rightarrow> real \<Rightarrow> string \<Rightarrow> bool \<Rightarrow> error + real \<times> real" where
  "compute_confidence_interval norm_ppf chi2_ppf r alpha kind apply_post_processing =
     (case select_interval norm_ppf chi2_ppf r alpha kind of
        Inl e \<Rightarrow> Inl e
      | Inr None \<Rightarrow> Inl NotImplementedError
      | Inr (Some (lo, hi)) \<Rightarrow>
          if apply_post_processing then Inr (post_processing r lo, post_processing r hi)
          else Inr (lo, hi))"

text \<open>The method names \<^verbatim>\<open>compute_confidence_interval\<close> supports.\<close>

definition supported_kinds :: "string set" where
  "supported_kinds =
     {''fisher'', ''fi'', ''observed_fisher'', ''observed_information'', ''oi'',
      ''likelihood_ratio'', ''lr''}"

section \<open>Derived notions used in the statements\<close>

text \<open>The contribution of schedule entry \<open>i\<close> with power \<open>k\<close> to the log-likelihood.\<close>

definition loglik_term :: "real \<Rightarrow> real list \<Rightarrow> real list \<Rightarrow> nat \<Rightarrow> int \<Rightarrow> real" where
  "loglik_term th one_counts all_counts i k =
     (one_counts ! i) * ln ((sin (real_of_int (2 * k + 1) * th))\<^sup>2)
     + (all_counts ! i - one_counts ! i) * ln ((cos (real_of_int (2 * k + 1) * th))\<^sup>2)"

text \<open>The grid of angles the likelihood-ratio scan visits, for \<open>n\<close> points (line 534).\<close>

definition lr_thetas :: "int \<Rightarrow> real list" where
  "lr_thetas n = linspace_points (0 + eps) (pi / 2 - eps) n"

text \<open>
  The log-likelihood of a result at an angle as the scan computes it (lines 530--531
  and 537), and the threshold of line 541.
\<close>

definition lr_value :: "mlae_result \<Rightarrow> real \<Rightarrow> real" where
  "lr_value r th =
     (case lr_loglikelihood r (good_counts r)
             (replicate (length (good_counts r)) (real_of_int (shots r))) th of
        Inl e \<Rightarrow> 0
      | Inr v \<Rightarrow> v)"

definition lr_thres :: "(real \<Rightarrow> real) \<Rightarrow> mlae_result \<Rightarrow> real \<Rightarrow> real" where
  "lr_thres chi2_ppf r alpha = lr_value r (theta r) - chi2_ppf (1 - alpha) / 2"

section \<open>Example inputs\<close>

text \<open>
  An analytic result: one statevector, schedule \<open>[0]\<close>, success probability \<open>1/2\<close>,
  hence \<open>\<theta> = \<pi>/4\<close> and estimate \<open>1/2\<close>.
\<close>

definition ex_statevector :: mlae_result where
  "ex_statevector =
     \<lparr>circuit_results = [Statevector [1, 0]], evaluation_schedule = [0],
      good_counts = [1 / 2], shots = 1, theta = pi / 4, estimation = 1 / 2,
      fisher_information = 4, post_processing = (\<lambda>x. x)\<rparr>"

text \<open>
  A sampled result: schedule \<open>[0]\<close>, four shots with one success, whose maximum
  likelihood fit is \<open>\<theta> = \<pi>/6\<close> with estimate \<open>sin\<^sup>2 (\<pi>/6) = 1/4\<close> and theoretical
  Fisher information \<open>4 / (1/4 * 3/4)\<close>.
\<close>

definition ex_counts :: mlae_result where
  "ex_counts =
     \<lparr>circuit_results = [Counts [(''0'', 3), (''1'', 1)]], evaluation_schedule = [0],
      good_counts = [1], shots = 4, theta = pi / 6, estimation = 1 / 4,
      fisher_information = 64 / 3, post_processing = (\<lambda>x. x)\<rparr>"

text \<open>
  A sampled result with a post-processing that doubles its argument: schedule \<open>[0]\<close>,
  four shots with two successes, fit \<open>\<theta> = \<pi>/4\<close>, estimate \<open>1/2\<close>, theoretical Fisher
  information \<open>4 / (1/2 * 1/2) = 16\<close>.
\<close>

definition ex_scaled :: mlae_result where
  "ex_scaled =
     \<lparr>circuit_results = [Counts [(''0'', 2), (''1'', 2)]], evaluation_schedule = [0],
      good_counts = [2], shots = 4, theta = pi / 4, estimation = 1 / 2,
      fisher_information = 16, post_processing = (\<lambda>x. 2 * x)\<rparr>"

text \<open>
  Two neighbouring angles of the default scan grid of 10000 points (indices 3332 and
  3333 of line 534), on either side of \<open>\<pi>/6\<close>.
\<close>

definition grid_below :: real where
  "grid_below = eps + real 3332 * ((pi / 2 - eps - eps) / real (nat 10000 - 1))"

definition grid_above :: real where
  "grid_above = eps + real 3333 * ((pi / 2 - eps - eps) / real (nat 10000 - 1))"

text \<open>
  A sampled result for the schedule \<open>[0, 1]\<close> with two shots and one success per
  entry; its likelihood \<open>sin\<^sup>2 (2 \<theta>) * sin\<^sup>2 (6 \<theta>) / 16\<close> is maximal at
  \<open>\<theta> = \<pi>/4\<close>, with estimate \<open>1/2\<close> and theoretical Fisher information
  \<open>(2 * 1 + 2 * 9) / (1/4) = 80\<close>.
\<close>

definition ex_two :: mlae_result where
  "ex_two =
     \<lparr>circuit_results = [Counts [(''0'', 1), (''1'', 1)], Counts [(''0'', 1), (''1'', 1)]],
      evaluation_schedule = [0, 1], good_counts = [1, 1], shots = 2, theta = pi / 4,
      estimation = 1 / 2, fisher_information = 80, post_processing = (\<lambda>x. x)\<rparr>"

section \<open>The statements of the specification that are compared with the code\<close>

text \<open>
  The number of grid points as the specification words it, with rounding to the
  nearest integer.
\<close>

definition nevals_claimed :: "int \<Rightarrow> int" where
  "nevals_claimed k_max = max 10000 (round (pi / 2 * 1000 * 2 * real_of_int k_max))"

text \<open>
  The score sum over the first \<open>m\<close> schedule entries at the fitted angle:
  \<open>\<Sum>\<^sub>i (2 k\<^sub>i + 1) * (h\<^sub>i / tan ((2 k\<^sub>i + 1) \<theta>) + (shots - h\<^sub>i) * tan ((2 k\<^sub>i + 1) \<theta>))\<close>.
\<close>

definition observed_score :: "mlae_result \<Rightarrow> nat \<Rightarrow> real" where
  "observed_score r m =
     (let ks = take m (evaluation_schedule r)
      in \<Sum>i<length ks.
           real_of_int (2 * (ks ! i) + 1) *
             ((good_counts r ! i) / tan (real_of_int (2 * (ks ! i) + 1) * theta r)
              + (real_of_int (shots r) - good_counts r ! i)
                  * tan (real_of_int (2 * (ks ! i) + 1) * theta r)))"

text \<open>
  The observed Fisher information as the specification words it for a truncation to
  the first \<open>m\<close> schedule entries: the score sum over those entries, divided by
  \<open>sqrt (\<^bold>a (1 - \<^bold>a))\<close>, squared, and divided by the number of entries in the sum.
\<close>

definition observed_fisher_claimed :: "mlae_result \<Rightarrow> nat \<Rightarrow> real" where
  "observed_fisher_claimed r m =
     (observed_score r m / sqrt (estimation r * (1 - estimation r)))\<^sup>2
     / real (length (take m (evaluation_schedule r)))"

section \<open>Unsupported method names and the analytic regime\<close>

text \<open>
  C1, as stated: no unknown method name ever yields an interval, in either regime.
  This fails: for a statevector result the method name is never looked at, and the
  unknown name \<open>foo\<close> returns the interval \<open>(1/2, 1/2)\<close>.
\<close>

theorem unknown_kind_statevector_counterexample:
  "''foo'' \<notin> supported_kinds \<and>
   compute_confidence_interval (\<lambda>p. 0) (\<lambda>p. 0) ex_statevector (5 / 100) ''foo'' False
     = Inr (1 / 2, 1 / 2)"
  by (simp add: supported_kinds_def compute_confidence_interval_def select_interval_def
      ex_statevector_def)

text \<open>
  C1, amended: for a method name that is not supported, a result with sampled outcomes
  (not every circuit result is a statevector) fails with NotImplementedError, whatever
  \<open>alpha\<close> and the post-processing flag are; a statevector result returns the interval
  \<open>(\<^bold>a, \<^bold>a)\<close> of the estimate (post-processed when asked), the name being ignored.
\<close>

theorem unknown_kind_raises_when_sampled:
  assumes "kind \<notin> supported_kinds"
  shows "(\<not> is_statevector_result r \<longrightarrow>
            compute_confidence_interval norm_ppf chi2_ppf r alpha kind app
              = Inl NotImplementedError)
       \<and> (is_statevector_result r \<longrightarrow>
            compute_confidence_interval norm_ppf chi2_ppf r alpha kind app
              = Inr (if app then (post_processing r (estimation r),
                                  post_processing r (estimation r))
                     else (estimation r, estimation r)))"
  using assms
  by (simp add: supported_kinds_def compute_confidence_interval_def select_interval_def
      is_statevector_result_def)

theorem unknown_kind_raises_when_sampled_witness:
  "''foo'' \<notin> supported_kinds \<and> \<not> is_statevector_result ex_counts
   \<and> is_statevector_result ex_statevector
   \<and> compute_confidence_interval (\<lambda>p. 0) (\<lambda>p. 0) ex_counts (5 / 100) ''foo'' False
       = Inl NotImplementedError
   \<and> compute_confidence_interval (\<lambda>p. 0) (\<lambda>p. 0) ex_statevector (5 / 100) ''foo'' True
       = Inr (1 / 2, 1 / 2)"
proof -
  have k: "''foo'' \<notin> supported_kinds"
    by (simp add: supported_kinds_def)
  have a: "\<not> is_statevector_result ex_counts"
    by (simp add: is_statevector_result_def ex_counts_def)
  have b: "is_statevector_result ex_statevector"
    by (simp add: is_statevector_result_def ex_statevector_def)
  have e: "estimation ex_statevector = 1 / 2" "post_processing ex_statevector = (\<lambda>x. x)"
    by (simp_all add: ex_statevector_def)
  show ?thesis
    using k a b e
      unknown_kind_raises_when_sampled [OF k, of ex_counts "\<lambda>p. 0" "\<lambda>p. 0" "5 / 100" False]
      unknown_kind_raises_when_sampled [OF k, of ex_statevector "\<lambda>p. 0" "\<lambda>p. 0" "5 / 100" True]
    by simp
qed

text \<open>
  C2: when every circuit result is a statevector, \<^verbatim>\<open>compute_confidence_interval\<close>
  (with its default \<^verbatim>\<open>apply_post_processing=False\<close>) returns \<open>(\<^bold>a, \<^bold>a)\<close> for the
  estimate \<open>\<^bold>a\<close>, for every \<open>alpha\<close> and every method name.
\<close>

theorem statevector_interval_is_estimate:
  "is_statevector_result r \<Longrightarrow>
   compute_confidence_interval norm_ppf chi2_ppf r alpha kind False
     = Inr (estimation r, estimation r)"
  by (simp add: compute_confidence_interval_def select_interval_def is_statevector_result_def)

theorem statevector_interval_is_estimate_witness:
  "is_statevector_result ex_statevector \<and>
   compute_confidence_interval (\<lambda>p. 0) (\<lambda>p. 0) ex_statevector (5 / 100) ''lr'' False
     = Inr (estimation ex_statevector, estimation ex_statevector)"
proof -
  have b: "is_statevector_result ex_statevector"
    by (simp add: is_statevector_result_def ex_statevector_def)
  show ?thesis
    using b statevector_interval_is_estimate [OF b, of "\<lambda>p. 0" "\<lambda>p. 0" "5 / 100" "''lr''"]
    by simp
qed

section \<open>Validation in the constructor\<close>

lemma init_negative_entry:
  "list_ex (\<lambda>v. v < 0) ks \<Longrightarrow> init (ScheduleList ks) mz = Inl ValueError"
  by (simp add: init_def init_schedule_def)

lemma init_negative_int:
  "n < 0 \<Longrightarrow> init (ScheduleInt n) mz = Inl ValueError"
  by (simp add: init_def init_schedule_def)

text \<open>
  C3: the empty schedule list. The constructor validates only the signs of the
  entries: with the default minimizer the empty list fails at \<^verbatim>\<open>schedule[-1]\<close> with
  IndexError, and with a caller's minimizer the estimator is built with an empty
  schedule. Neither is the ValueError of the validation.
\<close>

theorem init_empty_schedule:
  "init (ScheduleList []) None = Inl IndexError \<and>
   init (ScheduleList []) (Some m)
     = Inr \<lparr>mlae_evaluation_schedule = [], mlae_minimizer = Custom m\<rparr>"
  by (simp add: init_def init_schedule_def default_nevals_def)

section \<open>Fisher intervals and post-processing\<close>

text \<open>
  C4: for a sampled result and a Fisher method name (theoretical or observed),
  \<^verbatim>\<open>compute_confidence_interval\<close> returns the bounds
  \<open>\<^bold>a \<plusminus> z / sqrt I\<close> with the result's post-processing already applied when
  \<^verbatim>\<open>apply_post_processing\<close> is False, and applied twice when it is True.
\<close>

theorem fisher_interval_post_processed:
  assumes "\<not> is_statevector_result r"
    and "kind \<in> {''fisher'', ''fi'', ''observed_fisher'', ''observed_information'', ''oi''}"
  shows "(let observed = (kind \<in> {''observed_fisher'', ''observed_information'', ''oi''});
              fi = (if observed then compute_fisher_information r None True
                    else fisher_information r);
              z = norm_ppf (1 - alpha / 2);
              lo = estimation r - z / sqrt fi;
              hi = estimation r + z / sqrt fi;
              pp = post_processing r
          in compute_confidence_interval norm_ppf chi2_ppf r alpha kind False
               = Inr (pp lo, pp hi)
           \<and> compute_confidence_interval norm_ppf chi2_ppf r alpha kind True
               = Inr (pp (pp lo), pp (pp hi)))"
  using assms
  by (auto simp add: compute_confidence_interval_def select_interval_def
      is_statevector_result_def fisher_confint_def Let_def)

theorem fisher_interval_post_processed_witness:
  "\<not> is_statevector_result ex_scaled
   \<and> ''fisher'' \<in> {''fisher'', ''fi'', ''observed_fisher'', ''observed_information'', ''oi''}
   \<and> compute_confidence_interval (\<lambda>p. 2) (\<lambda>p. 0) ex_scaled (5 / 100) ''fisher'' False
       = Inr (0, 2)
   \<and> compute_confidence_interval (\<lambda>p. 2) (\<lambda>p. 0) ex_scaled (5 / 100) ''fisher'' True
       = Inr (0, 4)"
proof -
  have a: "\<not> is_statevector_result ex_scaled"
    by (simp add: is_statevector_result_def ex_scaled_def)
  have k: "''fisher'' \<in> {''fisher'', ''fi'', ''observed_fisher'', ''observed_information'', ''oi''}"
    by simp
  have s: "sqrt 16 = 4"
    using real_sqrt_abs [of 4] by simp
  have f: "estimation ex_scaled = 1 / 2" "fisher_information ex_scaled = 16"
    "post_processing ex_scaled = (\<lambda>x. 2 * x)"
    by (simp_all add: ex_scaled_def)
  show ?thesis
    using a k fisher_interval_post_processed [OF a k, of "\<lambda>p. 2" "5 / 100" "\<lambda>p. 0"]
    by (simp add: Let_def f s)
qed

section \<open>The objective of the maximum likelihood search\<close>

lemma loglik_loop_step:
  "i < length one_counts \<Longrightarrow> i < length all_counts \<Longrightarrow>
   loglik_loop th one_counts all_counts ((i, k) # rest) acc
     = loglik_loop th one_counts all_counts rest
         (acc + loglik_term th one_counts all_counts i k)"
  by (simp add: Let_def loglik_term_def mult.commute add.assoc)

lemma loglik_loop_sum:
  "n + length ks \<le> length one_counts \<Longrightarrow> n + length ks \<le> length all_counts \<Longrightarrow>
   loglik_loop th one_counts all_counts (enumerate n ks) acc
     = Inr (acc + (\<Sum>i<length ks. loglik_term th one_counts all_counts (n + i) (ks ! i)))"
proof (induction ks arbitrary: n acc)
  case Nil
  then show ?case by simp
next
  case (Cons k ks)
  have step: "loglik_loop th one_counts all_counts (enumerate n (k # ks)) acc
        = loglik_loop th one_counts all_counts (enumerate (Suc n) ks)
            (acc + loglik_term th one_counts all_counts n k)"
    using Cons.prems by (simp add: loglik_loop_step del: loglik_loop.simps)
  have "loglik_loop th one_counts all_counts (enumerate (Suc n) ks)
          (acc + loglik_term th one_counts all_counts n k)
        = Inr (acc + loglik_term th one_counts all_counts n k
               + (\<Sum>i<length ks. loglik_term th one_counts all_counts (Suc n + i) (ks ! i)))"
    using Cons.prems by (intro Cons.IH) simp_all
  then show ?case
    unfolding step
    by (simp add: sum.lessThan_Suc_shift add.assoc del: sum.lessThan_Suc)
qed

text \<open>
  C6: for a schedule \<open>k\<^sub>0, \<dots>, k\<^sub>n\<^sub>-\<^sub>1\<close> with a success count and a total count for
  every entry, the objective of \<^verbatim>\<open>compute_mle\<close> at \<open>\<theta>\<close> returns minus the sum over
  all entries of \<open>successes\<^sub>i * ln (sin\<^sup>2 ((2 k\<^sub>i + 1) \<theta>)) +
  (totals\<^sub>i - successes\<^sub>i) * ln (cos\<^sup>2 ((2 k\<^sub>i + 1) \<theta>))\<close>.
\<close>

theorem mle_objective_is_negative_loglikelihood:
  assumes "length schedule \<le> length good_cnts" and "length schedule \<le> length all_cnts"
  shows "mle_loglikelihood schedule good_cnts all_cnts th
     = Inr (- (\<Sum>i<length schedule.
                 (good_cnts ! i) * ln ((sin (real_of_int (2 * (schedule ! i) + 1) * th))\<^sup>2)
               + (all_cnts ! i - good_cnts ! i)
                   * ln ((cos (real_of_int (2 * (schedule ! i) + 1) * th))\<^sup>2)))"
  using loglik_loop_sum [of 0 schedule good_cnts all_cnts th 0] assms
  by (simp add: mle_loglikelihood_def loglik_term_def)

theorem mle_objective_is_negative_loglikelihood_witness:
  "length [0, 1 :: int] \<le> length [1, 2 :: real]
   \<and> length [0, 1 :: int] \<le> length [4, 4 :: real]
   \<and> mle_loglikelihood [0, 1] [1, 2] [4, 4] (1 / 2)
       = Inr (- (ln ((sin (1 / 2))\<^sup>2) + 3 * ln ((cos (1 / 2))\<^sup>2)
                 + (2 * ln ((sin (3 / 2))\<^sup>2) + 2 * ln ((cos (3 / 2))\<^sup>2))))"
  using mle_objective_is_negative_loglikelihood [of "[0, 1]" "[1, 2]" "[4, 4]" "1 / 2"]
  by (simp add: lessThan_Suc add.commute)

section \<open>The theoretical Fisher information\<close>

lemma zip_replicate_left:
  "length xs \<le> n \<Longrightarrow> zip (replicate n c) xs = map (\<lambda>x. (c, x)) xs"
proof (induction xs arbitrary: n)
  case Nil
  then show ?case by simp
next
  case (Cons x xs)
  then obtain m where "n = Suc m" by (cases n) auto
  with Cons show ?case by simp
qed

text \<open>
  C7: for a result with estimate \<open>\<^bold>a\<close> strictly between 0 and 1 (and one success count
  per schedule entry), the theoretical Fisher information is
  \<open>(\<Sum>\<^sub>i shots * (2 k\<^sub>i + 1)\<^sup>2) / (\<^bold>a * (1 - \<^bold>a))\<close>, over all schedule entries by default
  and over the first \<open>m\<close> entries for a truncation length \<open>m\<close>.
\<close>

theorem theoretical_fisher_information:
  assumes "0 < estimation r" and "estimation r < 1"
    and "length (good_counts r) = length (evaluation_schedule r)"
  shows "compute_fisher_information r None False
           = (\<Sum>k\<leftarrow>evaluation_schedule r. real_of_int (shots r) * (real_of_int (2 * k + 1))\<^sup>2)
             / (estimation r * (1 - estimation r))
       \<and> (0 \<le> m \<longrightarrow> compute_fisher_information r (Some m) False
           = (\<Sum>k\<leftarrow>take (nat m) (evaluation_schedule r).
                 real_of_int (shots r) * (real_of_int (2 * k + 1))\<^sup>2)
             / (estimation r * (1 - estimation r)))"
  using assms
  by (simp add: compute_fisher_information_def Let_def py_slice_to_def zip_replicate_left
      comp_def)

theorem theoretical_fisher_information_witness:
  "0 < estimation ex_counts \<and> estimation ex_counts < 1
   \<and> length (good_counts ex_counts) = length (evaluation_schedule ex_counts)
   \<and> compute_fisher_information ex_counts None False = 64 / 3
   \<and> (0 :: int) \<le> 1
   \<and> compute_fisher_information ex_counts (Some 1) False = 64 / 3"
proof -
  have h: "0 < estimation ex_counts" "estimation ex_counts < 1"
    "length (good_counts ex_counts) = length (evaluation_schedule ex_counts)"
    by (simp_all add: ex_counts_def)
  have f: "estimation ex_counts = 1 / 4" "evaluation_schedule ex_counts = [0]"
    "shots ex_counts = 4"
    by (simp_all add: ex_counts_def)
  show ?thesis
    using h theoretical_fisher_information [OF h, of 1] by (simp add: f)
qed

section \<open>Bounds on \<open>\<pi>\<close> and the sine\<close>

lemma sin_taylor_10:
  "\<bar>sin x - (x - x ^ 3 / 6 + x ^ 5 / 120 - x ^ 7 / 5040 + x ^ 9 / 362880)\<bar>
     \<le> \<bar>x\<bar> ^ 10 / 3628800" for x :: real
proof -
  have c: "sin_coeff 1 = 1" "sin_coeff 2 = 0" "sin_coeff 3 = - 1 / 6"
    "sin_coeff 4 = 0" "sin_coeff 5 = 1 / 120" "sin_coeff 6 = 0" "sin_coeff 7 = - 1 / 5040"
    "sin_coeff 8 = 0" "sin_coeff 9 = 1 / 362880"
    by (simp_all add: sin_coeff_def fact_numeral)
  have c1: "sin_coeff (Suc 0) = 1"
    by (simp add: sin_coeff_def)
  have i: "{..<10 :: nat} = {0, 1, 2, 3, 4, 5, 6, 7, 8, 9}"
    by auto
  have s: "(\<Sum>m<10. sin_coeff m * x ^ m)
           = x - x ^ 3 / 6 + x ^ 5 / 120 - x ^ 7 / 5040 + x ^ 9 / 362880"
    unfolding i by (simp add: c c1)
  have f: "inverse (fact 10) = (1 / 3628800 :: real)"
    by (simp add: fact_numeral)
  show ?thesis
    using Maclaurin_sin_bound [of x 10] unfolding s f by simp
qed

lemma pi_lower: "31415 / 10000 < pi"
proof -
  define x :: real where "x = 52359 / 100000"
  define p where "p = x - x ^ 3 / 6 + x ^ 5 / 120 - x ^ 7 / 5040 + x ^ 9 / 362880"
  have "sin x \<le> p + \<bar>x\<bar> ^ 10 / 3628800"
    using sin_taylor_10 [of x] unfolding p_def by linarith
  moreover have "p + \<bar>x\<bar> ^ 10 / 3628800 < 1 / 2"
    by (simp add: p_def x_def power_divide)
  ultimately have "sin x < 1 / 2" by linarith
  have "x < pi / 6"
  proof (rule ccontr)
    assume "\<not> x < pi / 6"
    then have "pi / 6 \<le> x" by simp
    moreover have "x \<le> pi / 2" using pi_ge_two by (simp add: x_def)
    ultimately have "sin (pi / 6) \<le> sin x"
      by (intro sin_monotone_2pi_le) simp_all
    with \<open>sin x < 1 / 2\<close> show False by (simp add: sin_30)
  qed
  then show ?thesis by (simp add: x_def)
qed

lemma pi_upper: "pi < 31416 / 10000"
proof -
  define x :: real where "x = 5236 / 10000"
  define p where "p = x - x ^ 3 / 6 + x ^ 5 / 120 - x ^ 7 / 5040 + x ^ 9 / 362880"
  have "p - \<bar>x\<bar> ^ 10 / 3628800 \<le> sin x"
    using sin_taylor_10 [of x] unfolding p_def by linarith
  moreover have "1 / 2 < p - \<bar>x\<bar> ^ 10 / 3628800"
    by (simp add: p_def x_def power_divide)
  ultimately have "1 / 2 < sin x" by linarith
  have "pi / 6 < x"
  proof (rule ccontr)
    assume "\<not> pi / 6 < x"
    then have "x \<le> pi / 6" by simp
    moreover have "- (pi / 2) \<le> x" using pi_ge_two by (simp add: x_def)
    ultimately have "sin x \<le> sin (pi / 6)"
      by (intro sin_monotone_2pi_le) simp_all
    with \<open>1 / 2 < sin x\<close> show False by (simp add: sin_30)
  qed
  then show ?thesis by (simp add: x_def)
qed

lemma sin_half_lower: "2 / 5 \<le> sin (1 / 2 :: real)"
proof -
  define x :: real where "x = 1 / 2"
  define p where "p = x - x ^ 3 / 6 + x ^ 5 / 120 - x ^ 7 / 5040 + x ^ 9 / 362880"
  have "p - \<bar>x\<bar> ^ 10 / 3628800 \<le> sin x"
    using sin_taylor_10 [of x] unfolding p_def by linarith
  moreover have "2 / 5 \<le> p - \<bar>x\<bar> ^ 10 / 3628800"
    by (simp add: p_def x_def power_divide)
  ultimately show ?thesis by (simp add: x_def)
qed

section \<open>The likelihood-ratio interval\<close>

lemma lr_loglikelihood_returns:
  assumes "length (evaluation_schedule r) \<le> length (good_counts r)"
  shows "lr_loglikelihood r (good_counts r)
           (replicate (length (good_counts r)) (real_of_int (shots r))) th
         = Inr (lr_value r th)"
proof -
  obtain v where "lr_loglikelihood r (good_counts r)
           (replicate (length (good_counts r)) (real_of_int (shots r))) th = Inr v"
    unfolding lr_loglikelihood_def
    using loglik_loop_sum [of 0 "evaluation_schedule r" "good_counts r"
        "replicate (length (good_counts r)) (real_of_int (shots r))" th 0] assms
    by simp
  then show ?thesis by (simp add: lr_value_def)
qed

lemma map_result_total:
  "(\<And>x. f x = Inr (g x)) \<Longrightarrow> map_result f xs = Inr (map g xs)"
  by (induction xs) simp_all

lemma above_threshold_map:
  "above_threshold thetas (map g thetas) thres = filter (\<lambda>t. g t \<ge> thres) thetas"
  by (induction thetas) (simp_all add: above_threshold_def)

lemma likelihood_ratio_confint_eq:
  assumes "lr_nevals r nevals = Inr n" and "0 \<le> n"
    and "length (evaluation_schedule r) \<le> length (good_counts r)"
  shows "likelihood_ratio_confint chi2_ppf r alpha nevals
         = (let above = filter (\<lambda>t. lr_value r t \<ge> lr_thres chi2_ppf r alpha) (lr_thetas n)
            in Inr (post_processing r ((sin (safe_min above 0))\<^sup>2),
                    post_processing r ((sin (safe_max above (pi / 2)))\<^sup>2)))"
proof -
  have m: "map_result (lr_loglikelihood r (good_counts r)
             (replicate (length (good_counts r)) (real_of_int (shots r)))) (lr_thetas n)
           = Inr (map (lr_value r) (lr_thetas n))"
    by (rule map_result_total) (rule lr_loglikelihood_returns [OF assms(3)])
  show ?thesis
    using assms(1,2) m
    by (simp add: likelihood_ratio_confint_def linspace_def lr_thetas_def Let_def
        lr_loglikelihood_returns [OF assms(3)] above_threshold_map lr_thres_def)
qed

lemma eps_bounds: "0 < eps" "eps < 1 / 2"
  by (simp_all add: eps_def)

lemma lr_thetas_range:
  assumes "t \<in> set (lr_thetas n)"
  shows "eps \<le> t \<and> t \<le> pi / 2 - eps"
proof -
  define d where "d = pi / 2 - eps - eps"
  have d0: "0 \<le> d"
    using pi_ge_two eps_bounds by (simp add: d_def)
  obtain i where i: "i < nat n" and t: "t = eps + real i * (d / real (nat n - 1))"
    using assms by (auto simp add: lr_thetas_def linspace_points_def d_def)
  have "0 \<le> real i * (d / real (nat n - 1))"
    using d0 by simp
  moreover have "real i * (d / real (nat n - 1)) \<le> d"
  proof (cases "nat n - 1 = 0")
    case True
    then show ?thesis using d0 by simp
  next
    case False
    then have pos: "0 < real (nat n - 1)" by simp
    have "real i \<le> real (nat n - 1)" using i by simp
    then have "real i * d \<le> real (nat n - 1) * d"
      using d0 by (rule mult_right_mono)
    then show ?thesis
      using pos by (simp add: field_simps)
  qed
  ultimately have "eps \<le> eps + real i * (d / real (nat n - 1))"
    and "eps + real i * (d / real (nat n - 1)) \<le> eps + d"
    by simp_all
  then show ?thesis
    unfolding t by (simp add: d_def)
qed

lemma sin_squared_mono:
  assumes "0 \<le> x" and "x \<le> y" and "y \<le> pi / 2"
  shows "(sin x)\<^sup>2 \<le> (sin y)\<^sup>2"
proof -
  have "sin x \<le> sin y"
    using assms by (intro sin_monotone_2pi_le) simp_all
  moreover have "0 \<le> sin x"
    using assms pi_ge_two by (intro sin_ge_zero) simp_all
  ultimately show ?thesis
    by (rule power_mono)
qed

subsection \<open>The scan on the example \<open>ex_counts\<close>\<close>

lemma lr_value_ex_counts:
  "lr_value ex_counts t = ln ((sin t)\<^sup>2) + 3 * ln ((cos t)\<^sup>2)"
  by (simp add: lr_value_def lr_loglikelihood_def ex_counts_def Let_def)

lemma lr_thetas_2: "lr_thetas 2 = [eps, pi / 2 - eps]"
  by (simp add: lr_thetas_def linspace_points_def upt_rec)

lemma lr_thetas_3: "lr_thetas 3 = [eps, pi / 4, pi / 2 - eps]"
  by (simp add: lr_thetas_def linspace_points_def upt_rec field_simps)

lemma ln_sin_eps: "ln ((sin eps)\<^sup>2) \<le> - 30"
proof -
  have s0: "0 < sin eps"
    using eps_bounds pi_ge_two by (intro sin_gt_zero) simp_all
  have "sin eps \<le> eps"
    using eps_bounds by (intro sin_x_le_x) simp
  then have "(sin eps)\<^sup>2 \<le> eps\<^sup>2"
    using s0 by (intro power_mono) simp_all
  then have "ln ((sin eps)\<^sup>2) \<le> ln (eps\<^sup>2)"
    using s0 by (intro ln_mono) simp_all
  also have "eps\<^sup>2 = inverse (10 ^ 30)"
    by (simp add: eps_def power2_eq_square)
  also have "ln (inverse (10 ^ 30 :: real)) = - (30 * ln 10)"
    using ln_realpow [of "10 :: real" 30] by (simp add: ln_div)
  also have "\<dots> \<le> - 30"
  proof -
    have "exp 1 \<le> (10 :: real)"
      using exp_le by simp
    then have "1 \<le> ln (10 :: real)"
      by (simp add: ln_ge_iff)
    then show ?thesis by simp
  qed
  finally show ?thesis .
qed

lemma ln_cos_eps: "ln ((cos eps)\<^sup>2) \<le> 0"
proof -
  have "0 < cos eps"
    using eps_bounds pi_ge_two by (intro cos_gt_zero) simp_all
  then have "0 < (cos eps)\<^sup>2" by simp
  moreover have "(cos eps)\<^sup>2 \<le> 1"
    by (simp add: abs_square_le_1)
  ultimately show ?thesis by simp
qed

lemma lr_value_ex_counts_pi6: "- 4 \<le> lr_value ex_counts (pi / 6)"
proof -
  have "ln (4 :: real) \<le> 4 - 1" by (rule ln_le_minus_one) simp
  then have a: "- 3 \<le> ln (1 / 4 :: real)"
    by (simp add: ln_div)
  have "ln (4 / 3 :: real) \<le> 4 / 3 - 1" by (rule ln_le_minus_one) simp
  then have b: "- (1 / 3) \<le> ln (3 / 4 :: real)"
    using ln_div [of 3 4] ln_div [of 4 3] by simp
  have "lr_value ex_counts (pi / 6) = ln (1 / 4) + 3 * ln (3 / 4)"
    by (simp add: lr_value_ex_counts sin_30 cos_30 power_divide)
  then show ?thesis using a b by simp
qed

lemma lr_thres_ex_counts_lower: "- 6 < lr_thres (\<lambda>p. 3841 / 1000) ex_counts alpha"
  using lr_value_ex_counts_pi6 by (simp add: lr_thres_def ex_counts_def)

lemma lr_value_ex_counts_eps:
  "lr_value ex_counts eps < lr_thres (\<lambda>p. 3841 / 1000) ex_counts alpha"
  using ln_sin_eps ln_cos_eps lr_thres_ex_counts_lower [of alpha]
  by (simp add: lr_value_ex_counts)

lemma lr_value_ex_counts_pi2_eps:
  "lr_value ex_counts (pi / 2 - eps) < lr_thres (\<lambda>p. 3841 / 1000) ex_counts alpha"
  using ln_sin_eps ln_cos_eps lr_thres_ex_counts_lower [of alpha]
  by (simp add: lr_value_ex_counts sin_diff cos_diff)

lemma lr_value_ex_counts_pi4:
  "lr_thres (\<lambda>p. 3841 / 1000) ex_counts alpha \<le> lr_value ex_counts (pi / 4)"
proof -
  have "ln (2 :: real) \<le> 2 - 1" by (rule ln_le_minus_one) simp
  then have a: "- 1 \<le> ln (1 / 2 :: real)"
    by (simp add: ln_div)
  have b: "ln (3 / 4 :: real) \<le> 3 / 4 - 1" by (rule ln_le_minus_one) simp
  have q: "ln (1 / 4 :: real) = 2 * ln (1 / 2)"
    using ln_realpow [of "1 / 2 :: real" 2] by (simp add: power2_eq_square)
  have v4: "lr_value ex_counts (pi / 4) = 4 * ln (1 / 2)"
    by (simp add: lr_value_ex_counts sin_45 cos_45 power_divide)
  have v6: "lr_value ex_counts (pi / 6) = ln (1 / 4) + 3 * ln (3 / 4)"
    by (simp add: lr_value_ex_counts sin_30 cos_30 power_divide)
  have t: "theta ex_counts = pi / 6" by (simp add: ex_counts_def)
  show ?thesis
    unfolding lr_thres_def t v4 v6 q using a b by simp
qed

lemma ex_counts_lr_interval_3:
  "likelihood_ratio_confint (\<lambda>p. 3841 / 1000) ex_counts (5 / 100) (Some 3)
     = Inr (1 / 2, 1 / 2)"
proof -
  have n: "lr_nevals ex_counts (Some 3) = Inr 3" by (simp add: lr_nevals_def)
  have l: "length (evaluation_schedule ex_counts) \<le> length (good_counts ex_counts)"
    by (simp add: ex_counts_def)
  have p: "post_processing ex_counts = (\<lambda>x. x)" by (simp add: ex_counts_def)
  have f: "filter (\<lambda>t. lr_thres (\<lambda>p. 3841 / 1000) ex_counts (5 / 100) \<le> lr_value ex_counts t)
             (lr_thetas 3) = [pi / 4]"
    using lr_value_ex_counts_eps [of "5 / 100"] lr_value_ex_counts_pi2_eps [of "5 / 100"]
      lr_value_ex_counts_pi4 [of "5 / 100"]
    by (simp add: lr_thetas_3)
  have z: "(0 :: int) \<le> 3" by simp
  show ?thesis
    unfolding likelihood_ratio_confint_eq [OF n z l] f
    by (simp add: p safe_min_def safe_max_def sin_45 power_divide)
qed

subsection \<open>Empty support\<close>

text \<open>
  C10: for a result with one success count per schedule entry, when no angle of the
  scan grid has a log-likelihood reaching the threshold
  \<open>loglik (\<theta>) - chi2_ppf (1 - alpha) / 2\<close>, the likelihood-ratio method does not fail:
  it returns the bounds \<open>0\<close> and \<open>\<pi>/2\<close> mapped through \<open>sin\<^sup>2\<close>, that is \<open>0\<close> and \<open>1\<close>,
  each passed through the result's post-processing.
\<close>

theorem lr_empty_support_gives_full_domain:
  assumes "lr_nevals r nevals = Inr n" and "0 \<le> n"
    and "length (evaluation_schedule r) \<le> length (good_counts r)"
    and "\<forall>t\<in>set (lr_thetas n). lr_value r t < lr_thres chi2_ppf r alpha"
  shows "likelihood_ratio_confint chi2_ppf r alpha nevals
         = Inr (post_processing r ((sin 0)\<^sup>2), post_processing r ((sin (pi / 2))\<^sup>2))
       \<and> likelihood_ratio_confint chi2_ppf r alpha nevals
         = Inr (post_processing r 0, post_processing r 1)"
proof -
  have "filter (\<lambda>t. lr_value r t \<ge> lr_thres chi2_ppf r alpha) (lr_thetas n) = []"
    using assms(4) by (auto simp add: filter_empty_conv)
  then show ?thesis
    by (simp add: likelihood_ratio_confint_eq [OF assms(1-3)] safe_min_def safe_max_def)
qed

theorem lr_empty_support_gives_full_domain_witness:
  "lr_nevals ex_counts (Some 2) = Inr 2 \<and> (0 :: int) \<le> 2
   \<and> length (evaluation_schedule ex_counts) \<le> length (good_counts ex_counts)
   \<and> lr_thetas 2 = [eps, pi / 2 - eps]
   \<and> lr_value ex_counts eps < lr_thres (\<lambda>p. 3841 / 1000) ex_counts (5 / 100)
   \<and> lr_value ex_counts (pi / 2 - eps) < lr_thres (\<lambda>p. 3841 / 1000) ex_counts (5 / 100)
   \<and> likelihood_ratio_confint (\<lambda>p. 3841 / 1000) ex_counts (5 / 100) (Some 2) = Inr (0, 1)"
proof -
  have n: "lr_nevals ex_counts (Some 2) = Inr 2" by (simp add: lr_nevals_def)
  have z: "(0 :: int) \<le> 2" by simp
  have l: "length (evaluation_schedule ex_counts) \<le> length (good_counts ex_counts)"
    by (simp add: ex_counts_def)
  have a: "\<forall>t\<in>set (lr_thetas 2).
             lr_value ex_counts t < lr_thres (\<lambda>p. 3841 / 1000) ex_counts (5 / 100)"
    using lr_value_ex_counts_eps [of "5 / 100"] lr_value_ex_counts_pi2_eps [of "5 / 100"]
    by (simp add: lr_thetas_2)
  have p: "post_processing ex_counts = (\<lambda>x. x)" by (simp add: ex_counts_def)
  show ?thesis
    using n z l lr_thetas_2 lr_value_ex_counts_eps [of "5 / 100"]
      lr_value_ex_counts_pi2_eps [of "5 / 100"]
      lr_empty_support_gives_full_domain [OF n z l a]
    by (simp add: p)
qed

subsection \<open>Containment of the estimate\<close>

text \<open>
  C9, as stated: the likelihood-ratio interval always contains the estimate. This
  fails when the fit is not an angle of the scan grid: for four shots with one success
  the fit is \<open>\<pi>/6\<close> and the estimate \<open>1/4\<close>; on the three-point grid
  \<open>eps, \<pi>/4, \<pi>/2 - eps\<close> only \<open>\<pi>/4\<close> reaches the threshold (for the chi-square
  quantile \<open>3.841\<close> of the level \<open>0.05\<close>), and the interval is \<open>(1/2, 1/2)\<close>.
\<close>

theorem lr_interval_misses_estimate_counterexample:
  "\<not> is_statevector_result ex_counts
   \<and> estimation ex_counts = (sin (theta ex_counts))\<^sup>2
   \<and> likelihood_ratio_confint (\<lambda>p. 3841 / 1000) ex_counts (5 / 100) (Some 3)
       = Inr (1 / 2, 1 / 2)
   \<and> \<not> (1 / 2 \<le> estimation ex_counts)"
  using ex_counts_lr_interval_3
  by (simp add: ex_counts_def is_statevector_result_def sin_30 power_divide)

text \<open>
  The example \<open>ex_counts\<close> on the default grid of 10000 points: its fit \<open>\<pi>/6\<close> is not
  a grid angle, and the two neighbouring grid angles reach the threshold.
\<close>

lemma grid_below_on_grid: "grid_below \<in> set (lr_thetas 10000)"
proof -
  have "grid_below \<in> (\<lambda>i. eps + real i * ((pi / 2 - eps - eps) / real (nat 10000 - 1)))
                       ` {0..<nat 10000}"
    unfolding grid_below_def by (rule image_eqI [of _ _ 3332]) simp_all
  then show ?thesis
    by (simp add: lr_thetas_def linspace_points_def)
qed

lemma grid_above_on_grid: "grid_above \<in> set (lr_thetas 10000)"
proof -
  have "grid_above \<in> (\<lambda>i. eps + real i * ((pi / 2 - eps - eps) / real (nat 10000 - 1)))
                       ` {0..<nat 10000}"
    unfolding grid_above_def by (rule image_eqI [of _ _ 3333]) simp_all
  then show ?thesis
    by (simp add: lr_thetas_def linspace_points_def)
qed

lemma grid_above_eq: "grid_above = pi / 6 + eps / 3"
  by (simp add: grid_above_def field_simps)

lemma grid_below_bounds: "1 / 2 \<le> grid_below" "grid_below \<le> pi / 6"
proof -
  have e: "0 < eps" "eps < 1 / 1000000"
    by (simp_all add: eps_def)
  have g: "grid_below = eps * (3335 / 9999) + pi * (1666 / 9999)"
    by (simp add: grid_below_def field_simps)
  show "1 / 2 \<le> grid_below"
    unfolding g using pi_lower e by simp
  show "grid_below \<le> pi / 6"
    unfolding g using pi_lower e by simp
qed

lemma ex_counts_thres: 
  "lr_thres (\<lambda>p. 3841 / 1000) ex_counts alpha = ln (1 / 4) + 3 * ln (3 / 4) - 3841 / 2000"
proof -
  have t: "theta ex_counts = pi / 6"
    by (simp add: ex_counts_def)
  show ?thesis
    unfolding lr_thres_def t lr_value_ex_counts
    by (simp add: sin_30 cos_30 power_divide)
qed

lemma grid_below_reaches:
  "lr_thres (\<lambda>p. 3841 / 1000) ex_counts alpha \<le> lr_value ex_counts grid_below"
proof -
  have r: "0 \<le> grid_below" "grid_below \<le> pi / 2"
    using grid_below_bounds pi_ge_two by simp_all
  have "sin (1 / 2) \<le> sin grid_below"
    using grid_below_bounds r by (intro sin_monotone_2pi_le) simp_all
  then have s: "2 / 5 \<le> sin grid_below"
    using sin_half_lower by simp
  then have "(2 / 5)\<^sup>2 \<le> (sin grid_below)\<^sup>2"
    by (intro power_mono) simp_all
  then have "ln ((2 / 5)\<^sup>2) \<le> ln ((sin grid_below)\<^sup>2)"
    by (intro ln_mono) simp_all
  then have a: "ln (4 / 25) \<le> ln ((sin grid_below)\<^sup>2)"
    by (simp add: power_divide)
  have "cos (pi / 6) \<le> cos grid_below"
    using grid_below_bounds r by (intro cos_monotone_0_pi_le) simp_all
  then have "(cos (pi / 6))\<^sup>2 \<le> (cos grid_below)\<^sup>2"
    by (intro power_mono) (simp_all add: cos_30)
  then have "ln ((cos (pi / 6))\<^sup>2) \<le> ln ((cos grid_below)\<^sup>2)"
    by (intro ln_mono) (simp_all add: cos_30 power_divide)
  then have b: "ln (3 / 4) \<le> ln ((cos grid_below)\<^sup>2)"
    by (simp add: cos_30 power_divide)
  have "ln (25 / 16 :: real) \<le> 25 / 16 - 1"
    by (rule ln_le_minus_one) simp
  moreover have "ln (4 / 25 :: real) = ln (1 / 4) + ln (16 / 25)"
    using ln_mult [of "1 / 4 :: real" "16 / 25"] by simp
  moreover have "ln (16 / 25 :: real) = - ln (25 / 16)"
    using ln_inverse [of "25 / 16 :: real"] by simp
  ultimately have c: "ln (1 / 4 :: real) - 9 / 16 \<le> ln (4 / 25)"
    by simp
  show ?thesis
    unfolding ex_counts_thres lr_value_ex_counts using a b c by simp
qed

lemma grid_above_reaches:
  "lr_thres (\<lambda>p. 3841 / 1000) ex_counts alpha \<le> lr_value ex_counts grid_above"
proof -
  have e: "0 < eps" "eps < 1 / 1000000"
    by (simp_all add: eps_def)
  have r: "pi / 6 \<le> grid_above" "grid_above \<le> pi / 4" "0 \<le> grid_above"
    using e pi_ge_two by (simp_all add: grid_above_eq)
  have "sin (pi / 6) \<le> sin grid_above"
    using r by (intro sin_monotone_2pi_le) simp_all
  then have "(1 / 2)\<^sup>2 \<le> (sin grid_above)\<^sup>2"
    by (intro power_mono) (simp_all add: sin_30)
  then have "ln ((1 / 2)\<^sup>2) \<le> ln ((sin grid_above)\<^sup>2)"
    by (intro ln_mono) simp_all
  then have a: "ln (1 / 4) \<le> ln ((sin grid_above)\<^sup>2)"
    by (simp add: power_divide)
  have "cos (pi / 4) \<le> cos grid_above"
    using r by (intro cos_monotone_0_pi_le) simp_all
  then have "(cos (pi / 4))\<^sup>2 \<le> (cos grid_above)\<^sup>2"
    by (intro power_mono) (simp_all add: cos_45)
  then have "ln ((cos (pi / 4))\<^sup>2) \<le> ln ((cos grid_above)\<^sup>2)"
    by (intro ln_mono) (simp_all add: cos_45 power_divide)
  then have b: "ln (1 / 2) \<le> ln ((cos grid_above)\<^sup>2)"
    by (simp add: cos_45 power_divide)
  have "ln (3 / 2 :: real) \<le> 3 / 2 - 1"
    by (rule ln_le_minus_one) simp
  moreover have "ln (1 / 2 :: real) = ln (3 / 4) + ln (2 / 3)"
    using ln_mult [of "3 / 4 :: real" "2 / 3"] by simp
  moreover have "ln (2 / 3 :: real) = - ln (3 / 2)"
    using ln_inverse [of "3 / 2 :: real"] by simp
  ultimately have c: "ln (3 / 4 :: real) - 1 / 2 \<le> ln (1 / 2)"
    by simp
  show ?thesis
    unfolding ex_counts_thres lr_value_ex_counts using a b c by simp
qed

lemma ex_counts_fit_off_grid: "theta ex_counts \<notin> set (lr_thetas 10000)"
proof
  assume "theta ex_counts \<in> set (lr_thetas 10000)"
  then obtain i where i: "i < 10000"
    and t: "pi / 6 = eps + real i * ((pi / 2 - eps - eps) / real (nat 10000 - 1))"
    by (auto simp add: lr_thetas_def linspace_points_def ex_counts_def)
  define c where "c = (pi / 2 - eps - eps) / real (nat 10000 - 1)"
  have c0: "0 \<le> c"
    using pi_ge_two eps_bounds by (simp add: c_def)
  have below: "eps + real 3332 * c < pi / 6"
    using grid_below_bounds(2) pi_lower
    by (simp add: c_def eps_def field_simps)
  have above: "pi / 6 < eps + real 3333 * c"
    using eps_bounds(1) by (simp add: c_def field_simps)
  have t': "pi / 6 = eps + real i * c"
    using t by (simp only: c_def)
  show False
  proof (cases "i \<le> 3332")
    case True
    then have "real i \<le> real 3332" by simp
    then have "real i * c \<le> real 3332 * c"
      using c0 by (rule mult_right_mono)
    then show False
      using below t' by linarith
  next
    case False
    then have "real 3333 \<le> real i" by simp
    then have "real 3333 * c \<le> real i * c"
      using c0 by (rule mult_right_mono)
    then show False
      using above t' by linarith
  qed
qed

text \<open>
  A fit that is itself a grid angle is bracketed by that angle, for a non-negative
  chi-square quantile.
\<close>

lemma lr_on_grid_fit_is_bracketed:
  assumes "theta r \<in> set (lr_thetas n)" and "0 \<le> chi2_ppf (1 - alpha)"
  shows "\<exists>t1\<in>set (lr_thetas n). \<exists>t2\<in>set (lr_thetas n).
           lr_thres chi2_ppf r alpha \<le> lr_value r t1
           \<and> lr_thres chi2_ppf r alpha \<le> lr_value r t2
           \<and> t1 \<le> theta r \<and> theta r \<le> t2"
proof -
  have "lr_thres chi2_ppf r alpha \<le> lr_value r (theta r)"
    using assms(2) by (simp add: lr_thres_def)
  then show ?thesis
    using assms(1) by blast
qed

text \<open>
  C9, amended: for a sampled result with one success count per schedule entry,
  identity post-processing and estimate \<open>sin\<^sup>2 \<theta>\<close> of its fitted angle \<open>\<theta>\<close>, the
  likelihood-ratio method returns an interval that contains the estimate whenever no
  grid angle reaches the threshold (the full-domain fallback), or \<open>\<theta>\<close> lies between
  two grid angles that reach the threshold: one at or below \<open>\<theta>\<close> and one at or above
  it (both are \<open>\<theta>\<close> itself when \<open>\<theta>\<close> is a grid angle).
\<close>

theorem lr_interval_contains_bracketed_estimate:
  assumes "lr_nevals r nevals = Inr n" and "0 \<le> n"
    and "length (evaluation_schedule r) \<le> length (good_counts r)"
    and "post_processing r = (\<lambda>x. x)"
    and "estimation r = (sin (theta r))\<^sup>2"
    and "(\<forall>t\<in>set (lr_thetas n). lr_value r t < lr_thres chi2_ppf r alpha)
         \<or> (\<exists>t1\<in>set (lr_thetas n). \<exists>t2\<in>set (lr_thetas n).
               lr_thres chi2_ppf r alpha \<le> lr_value r t1
               \<and> lr_thres chi2_ppf r alpha \<le> lr_value r t2
               \<and> t1 \<le> theta r \<and> theta r \<le> t2)"
  shows "\<exists>lo hi. likelihood_ratio_confint chi2_ppf r alpha nevals = Inr (lo, hi)
           \<and> lo \<le> estimation r \<and> estimation r \<le> hi"
proof -
  define above where
    "above = filter (\<lambda>t. lr_value r t \<ge> lr_thres chi2_ppf r alpha) (lr_thetas n)"
  have eq: "likelihood_ratio_confint chi2_ppf r alpha nevals
            = Inr ((sin (safe_min above 0))\<^sup>2, (sin (safe_max above (pi / 2)))\<^sup>2)"
    by (simp add: likelihood_ratio_confint_eq [OF assms(1-3)] assms(4) above_def Let_def)
  have bounds: "(sin (safe_min above 0))\<^sup>2 \<le> (sin (theta r))\<^sup>2
                \<and> (sin (theta r))\<^sup>2 \<le> (sin (safe_max above (pi / 2)))\<^sup>2"
  proof (cases "above = []")
    case True
    have "(sin (theta r))\<^sup>2 \<le> 1"
      by (simp add: abs_square_le_1)
    then show ?thesis
      using True by (simp add: safe_min_def safe_max_def)
  next
    case False
    then obtain t0 where "t0 \<in> set above"
      by (cases above) auto
    then have "t0 \<in> set (lr_thetas n)" and "\<not> lr_value r t0 < lr_thres chi2_ppf r alpha"
      by (simp_all add: above_def)
    then have "\<not> (\<forall>t\<in>set (lr_thetas n). lr_value r t < lr_thres chi2_ppf r alpha)"
      by blast
    then obtain t1 t2 where g: "t1 \<in> set (lr_thetas n)" "t2 \<in> set (lr_thetas n)"
      and v: "lr_thres chi2_ppf r alpha \<le> lr_value r t1"
        "lr_thres chi2_ppf r alpha \<le> lr_value r t2"
      and b: "t1 \<le> theta r" "theta r \<le> t2"
      using assms(6) by blast
    have mem: "t1 \<in> set above" "t2 \<in> set above"
      using g v by (simp_all add: above_def)
    have sub: "set above \<subseteq> set (lr_thetas n)"
      by (auto simp add: above_def)
    have mn: "Min (set above) \<in> set above" and mx: "Max (set above) \<in> set above"
      using False by simp_all
    have lo: "0 \<le> Min (set above)"
      using lr_thetas_range [of "Min (set above)" n] mn sub eps_bounds by auto
    have hi: "Max (set above) \<le> pi / 2"
      using lr_thetas_range [of "Max (set above)" n] mx sub eps_bounds by auto
    have "Min (set above) \<le> t1" and "t2 \<le> Max (set above)"
      using mem by simp_all
    then have "Min (set above) \<le> theta r" and "theta r \<le> Max (set above)"
      using b by simp_all
    then have "(sin (Min (set above)))\<^sup>2 \<le> (sin (theta r))\<^sup>2"
      and "(sin (theta r))\<^sup>2 \<le> (sin (Max (set above)))\<^sup>2"
      using lo hi by (auto intro!: sin_squared_mono)
    then show ?thesis
      using False by (simp add: safe_min_def safe_max_def)
  qed
  show ?thesis
    using eq bounds by (simp add: assms(5))
qed

theorem lr_interval_contains_bracketed_estimate_witness:
  "lr_nevals ex_counts None = Inr 10000 \<and> (0 :: int) \<le> 10000
   \<and> length (evaluation_schedule ex_counts) \<le> length (good_counts ex_counts)
   \<and> post_processing ex_counts = (\<lambda>x. x)
   \<and> estimation ex_counts = (sin (theta ex_counts))\<^sup>2
   \<and> grid_below \<in> set (lr_thetas 10000) \<and> grid_above \<in> set (lr_thetas 10000)
   \<and> lr_thres (\<lambda>p. 3841 / 1000) ex_counts (5 / 100) \<le> lr_value ex_counts grid_below
   \<and> lr_thres (\<lambda>p. 3841 / 1000) ex_counts (5 / 100) \<le> lr_value ex_counts grid_above
   \<and> grid_below \<le> theta ex_counts \<and> theta ex_counts \<le> grid_above
   \<and> theta ex_counts \<noteq> grid_below \<and> theta ex_counts \<noteq> grid_above
   \<and> (\<exists>lo hi. likelihood_ratio_confint (\<lambda>p. 3841 / 1000) ex_counts (5 / 100) None = Inr (lo, hi)
         \<and> lo \<le> estimation ex_counts \<and> estimation ex_counts \<le> hi)"
proof -
  have n: "lr_nevals ex_counts None = Inr 10000"
    by (simp add: lr_nevals_def default_nevals_def py_int_def ex_counts_def)
  have z: "(0 :: int) \<le> 10000" by simp
  have l: "length (evaluation_schedule ex_counts) \<le> length (good_counts ex_counts)"
    by (simp add: ex_counts_def)
  have p: "post_processing ex_counts = (\<lambda>x. x)"
    by (simp add: ex_counts_def)
  have e: "estimation ex_counts = (sin (theta ex_counts))\<^sup>2"
    by (simp add: ex_counts_def sin_30 power_divide)
  have t: "theta ex_counts = pi / 6"
    by (simp add: ex_counts_def)
  have ep: "0 < eps" by (simp add: eps_def)
  have lt: "grid_below < pi / 6"
  proof -
    have g: "grid_below = eps * (3335 / 9999) + pi * (1666 / 9999)"
      by (simp add: grid_below_def field_simps)
    have "eps < 1 / 1000000" by (simp add: eps_def)
    then show ?thesis unfolding g using pi_lower by simp
  qed
  have b: "grid_below \<le> theta ex_counts" "theta ex_counts \<le> grid_above"
    "theta ex_counts \<noteq> grid_below" "theta ex_counts \<noteq> grid_above"
    using lt ep by (simp_all add: t grid_above_eq)
  have d: "(\<forall>t\<in>set (lr_thetas 10000).
              lr_value ex_counts t < lr_thres (\<lambda>p. 3841 / 1000) ex_counts (5 / 100))
        \<or> (\<exists>t1\<in>set (lr_thetas 10000). \<exists>t2\<in>set (lr_thetas 10000).
              lr_thres (\<lambda>p. 3841 / 1000) ex_counts (5 / 100) \<le> lr_value ex_counts t1
              \<and> lr_thres (\<lambda>p. 3841 / 1000) ex_counts (5 / 100) \<le> lr_value ex_counts t2
              \<and> t1 \<le> theta ex_counts \<and> theta ex_counts \<le> t2)"
    using grid_below_on_grid grid_above_on_grid grid_below_reaches [of "5 / 100"]
      grid_above_reaches [of "5 / 100"] b by blast
  show ?thesis
    using n z l p e grid_below_on_grid grid_above_on_grid grid_below_reaches [of "5 / 100"]
      grid_above_reaches [of "5 / 100"] b lr_interval_contains_bracketed_estimate [OF n z l p e d]
    by simp
qed

text \<open>
  The condition is also necessary for a fitted angle in \<open>[0, \<pi>/2]\<close>: an interval that
  contains the estimate comes from an empty support or from grid angles that bracket the
  fit.
\<close>

lemma sin_squared_strict_mono:
  assumes "0 \<le> x" and "x < y" and "y \<le> pi / 2"
  shows "(sin x)\<^sup>2 < (sin y)\<^sup>2"
proof -
  have "sin x < sin y"
    using assms by (intro sin_monotone_2pi) simp_all
  moreover have "0 \<le> sin x"
    using assms pi_ge_two by (intro sin_ge_zero) simp_all
  ultimately show ?thesis
    by (intro power_strict_mono) simp_all
qed

lemma lr_containment_needs_bracket:
  assumes "lr_nevals r nevals = Inr n" and "0 \<le> n"
    and "length (evaluation_schedule r) \<le> length (good_counts r)"
    and "post_processing r = (\<lambda>x. x)"
    and "estimation r = (sin (theta r))\<^sup>2"
    and "0 \<le> theta r" and "theta r \<le> pi / 2"
    and "likelihood_ratio_confint chi2_ppf r alpha nevals = Inr (lo, hi)"
    and "lo \<le> estimation r" and "estimation r \<le> hi"
  shows "(\<forall>t\<in>set (lr_thetas n). lr_value r t < lr_thres chi2_ppf r alpha)
         \<or> (\<exists>t1\<in>set (lr_thetas n). \<exists>t2\<in>set (lr_thetas n).
               lr_thres chi2_ppf r alpha \<le> lr_value r t1
               \<and> lr_thres chi2_ppf r alpha \<le> lr_value r t2
               \<and> t1 \<le> theta r \<and> theta r \<le> t2)"
proof -
  define above where
    "above = filter (\<lambda>t. lr_value r t \<ge> lr_thres chi2_ppf r alpha) (lr_thetas n)"
  have eq: "likelihood_ratio_confint chi2_ppf r alpha nevals
            = Inr ((sin (safe_min above 0))\<^sup>2, (sin (safe_max above (pi / 2)))\<^sup>2)"
    by (simp add: likelihood_ratio_confint_eq [OF assms(1-3)] assms(4) above_def Let_def)
  show ?thesis
  proof (cases "above = []")
    case True
    then have "\<forall>t\<in>set (lr_thetas n). lr_value r t < lr_thres chi2_ppf r alpha"
      by (auto simp add: above_def filter_empty_conv not_le)
    then show ?thesis by blast
  next
    case False
    have lohi: "lo = (sin (Min (set above)))\<^sup>2" "hi = (sin (Max (set above)))\<^sup>2"
      using eq assms(8) False by (simp_all add: safe_min_def safe_max_def)
    have sub: "set above \<subseteq> set (lr_thetas n)"
      by (auto simp add: above_def)
    have mn: "Min (set above) \<in> set above" and mx: "Max (set above) \<in> set above"
      using False by simp_all
    have r1: "0 \<le> Min (set above)" "Min (set above) \<le> pi / 2"
      using lr_thetas_range [of "Min (set above)" n] mn sub eps_bounds by auto
    have r2: "0 \<le> Max (set above)" "Max (set above) \<le> pi / 2"
      using lr_thetas_range [of "Max (set above)" n] mx sub eps_bounds by auto
    have a: "Min (set above) \<le> theta r"
    proof (rule ccontr)
      assume "\<not> Min (set above) \<le> theta r"
      then have "(sin (theta r))\<^sup>2 < (sin (Min (set above)))\<^sup>2"
        using assms(6) r1 by (intro sin_squared_strict_mono) simp_all
      then show False
        using assms(9) by (simp add: lohi assms(5))
    qed
    have b: "theta r \<le> Max (set above)"
    proof (rule ccontr)
      assume "\<not> theta r \<le> Max (set above)"
      then have "(sin (Max (set above)))\<^sup>2 < (sin (theta r))\<^sup>2"
        using assms(7) r2 by (intro sin_squared_strict_mono) simp_all
      then show False
        using assms(10) by (simp add: lohi assms(5))
    qed
    have "Min (set above) \<in> set (lr_thetas n)" "Max (set above) \<in> set (lr_thetas n)"
      "lr_thres chi2_ppf r alpha \<le> lr_value r (Min (set above))"
      "lr_thres chi2_ppf r alpha \<le> lr_value r (Max (set above))"
      using mn mx by (simp_all add: above_def)
    then show ?thesis
      using a b by blast
  qed
qed

section \<open>The default number of grid points\<close>

text \<open>
  C8, as stated: the default number of grid points is
  \<open>max (10000, round (\<pi>/2 * 1000 * 2 * k\<^sub>m\<^sub>a\<^sub>x))\<close>. The code truncates with
  \<^verbatim>\<open>int\<close> instead of rounding: for the schedule \<open>[0, 5]\<close> the product is
  \<open>15707.96\<dots>\<close>, the constructor stores \<open>15707\<close> and the rounded value is \<open>15708\<close>.
\<close>

theorem default_nevals_truncates_counterexample:
  "init (ScheduleList [0, 5]) None
     = Inr \<lparr>mlae_evaluation_schedule = [0, 5], mlae_minimizer = DefaultBrute 15707\<rparr>
   \<and> nevals_claimed (last [0, 5]) = 15708"
proof -
  have f: "\<lfloor>5000 * pi\<rfloor> = 15707"
    using pi_lower pi_upper by (simp add: floor_eq_iff)
  have r: "round (5000 * pi) = 15708"
    using pi_lower pi_upper by (simp add: round_def floor_eq_iff)
  show ?thesis
    by (simp add: init_def init_schedule_def default_nevals_def py_int_def nevals_claimed_def
        f r)
qed

lemma py_last_nonempty: "ks \<noteq> [] \<Longrightarrow> py_last ks = Inr (last ks)"
  by (cases ks) simp_all

lemma init_schedule_nonneg:
  assumes "init_schedule sched_arg = Inr ks" and "k \<in> set ks"
  shows "0 \<le> k"
proof (cases sched_arg)
  case (ScheduleInt n)
  then have "ks = [0] @ map (\<lambda>j. 2 ^ j) [0..<nat n]"
    using assms(1) by (simp add: init_schedule_def split: if_splits)
  then show ?thesis
    using assms(2) by auto
next
  case (ScheduleList xs)
  then have "ks = xs" and "\<not> list_ex (\<lambda>v. v < 0) xs"
    using assms(1) by (simp_all add: init_schedule_def split: if_splits)
  then show ?thesis
    using assms(2) by (auto simp add: list_ex_iff)
qed

text \<open>
  C8, amended: for every schedule that passes the constructor's validation and is
  not empty (a list without negative entries, or the exponential schedule of a
  non-negative integer), and no custom minimizer, the constructor succeeds and the
  default minimizer's number of grid points is
  \<open>max (10000, \<lfloor>\<pi>/2 * 1000 * 2 * k\<^sub>m\<^sub>a\<^sub>x\<rfloor>)\<close>, the product truncated to an integer,
  where \<open>k\<^sub>m\<^sub>a\<^sub>x\<close> is the last schedule entry.
\<close>

theorem default_nevals_is_floor:
  assumes "init_schedule sched_arg = Inr ks" and "ks \<noteq> []"
  shows "init sched_arg None
     = Inr \<lparr>mlae_evaluation_schedule = ks,
            mlae_minimizer =
              DefaultBrute (max 10000 \<lfloor>pi / 2 * 1000 * 2 * real_of_int (last ks)\<rfloor>)\<rparr>"
proof -
  have "last ks \<in> set ks" using assms(2) by simp
  then have "0 \<le> last ks"
    using assms(1) by (rule init_schedule_nonneg [rotated])
  then have "0 \<le> pi / 2 * 1000 * 2 * real_of_int (last ks)" by simp
  then show ?thesis
    using assms
    by (simp add: init_def default_nevals_def py_last_nonempty py_int_def)
qed

theorem default_nevals_is_floor_witness:
  "init_schedule (ScheduleList [0, 5]) = Inr [0, 5] \<and> [0, 5 :: int] \<noteq> []
   \<and> init (ScheduleList [0, 5]) None
     = Inr \<lparr>mlae_evaluation_schedule = [0, 5],
            mlae_minimizer = DefaultBrute (max 10000 \<lfloor>pi / 2 * 1000 * 2 * real_of_int 5\<rfloor>)\<rparr>
   \<and> init_schedule (ScheduleInt 3) = Inr [0, 1, 2, 4]
   \<and> init (ScheduleInt 3) None
     = Inr \<lparr>mlae_evaluation_schedule = [0, 1, 2, 4],
            mlae_minimizer = DefaultBrute (max 10000 \<lfloor>pi / 2 * 1000 * 2 * real_of_int 4\<rfloor>)\<rparr>"
proof -
  have a: "init_schedule (ScheduleList [0, 5]) = Inr [0, 5]"
    by (simp add: init_schedule_def)
  have b: "init_schedule (ScheduleInt 3) = Inr [0, 1, 2, 4]"
    by (simp add: init_schedule_def upt_rec eval_nat_numeral)
  show ?thesis
    using a b default_nevals_is_floor [OF a] default_nevals_is_floor [OF b] by simp
qed

section \<open>The observed Fisher information\<close>

lemma sqrt_half: "sqrt (1 / 2) = sqrt 2 / 2"
  by (rule real_sqrt_unique) (simp_all add: power_divide)

lemma sqrt_quarter: "sqrt (1 / 4) = 1 / 2"
  by (rule real_sqrt_unique) (simp_all add: power_divide)

lemma arcsin_sqrt_half: "arcsin (sqrt (1 / 2)) = pi / 4"
proof -
  have "arcsin (sin (pi / 4)) = pi / 4"
    by (rule arcsin_sin) simp_all
  then show ?thesis by (simp add: sin_45 sqrt_half)
qed

text \<open>
  What the code computes in general: the squared, rescaled score of the truncated sum
  divided by the number of all success counts, whatever the truncation; without a
  truncation this is the specification's value.
\<close>

lemma foldl_add_sum_list:
  "foldl (\<lambda>d x. d + g x) acc xs = acc + sum_list (map g xs)" for acc :: real
  by (induction xs arbitrary: acc) (simp_all add: add.assoc)

lemma observed_fisher_of_truncation:
  assumes "length (good_counts r) = length (evaluation_schedule r)"
    and "theta r = arcsin (sqrt (estimation r))"
  shows "compute_fisher_information r (Some (int m)) True
         = (observed_score r m / sqrt (estimation r * (1 - estimation r)))\<^sup>2
           / real (length (good_counts r))"
proof -
  define ks where "ks = take m (evaluation_schedule r)"
  define g where "g = (\<lambda>(shots_k :: real, h_k, m_k).
      real_of_int (2 * m_k + 1) *
        (h_k / tan (real_of_int (2 * m_k + 1) * theta r)
         + (shots_k - h_k) * tan (real_of_int (2 * m_k + 1) * theta r)))"
  define zs where "zs = zip (replicate (length (good_counts r)) (real_of_int (shots r)))
                            (zip (good_counts r) ks)"
  have len: "length ks \<le> length (good_counts r)"
    by (simp add: ks_def assms(1))
  have lz: "length zs = length ks"
    using len by (simp add: zs_def)
  have nz: "\<And>i. i < length ks \<Longrightarrow> zs ! i = (real_of_int (shots r), good_counts r ! i, ks ! i)"
    using len by (simp add: zs_def)
  have sc: "sum_list (map g zs)
            = (\<Sum>i<length ks. g (real_of_int (shots r), good_counts r ! i, ks ! i))"
    by (simp add: sum_list_sum_nth lz nz atLeast0LessThan)
  have "compute_fisher_information r (Some (int m)) True
              = (sum_list (map g zs) / sqrt (estimation r * (1 - estimation r)))\<^sup>2
                / real (length (good_counts r))"
    unfolding zs_def ks_def g_def
    by (simp add: compute_fisher_information_def Let_def py_slice_to_def assms(2) [symmetric]
        foldl_add_sum_list case_prod_beta')
  moreover have "observed_score r m = sum_list (map g zs)"
    unfolding sc by (simp add: observed_score_def Let_def g_def flip: ks_def)
  ultimately show ?thesis by simp
qed

lemma observed_fisher_without_truncation:
  assumes "length (good_counts r) = length (evaluation_schedule r)"
    and "theta r = arcsin (sqrt (estimation r))"
  shows "compute_fisher_information r None True
         = observed_fisher_claimed r (length (evaluation_schedule r))"
proof -
  have "compute_fisher_information r None True
        = compute_fisher_information r (Some (int (length (evaluation_schedule r)))) True"
    by (simp add: compute_fisher_information_def py_slice_to_def)
  then show ?thesis
    by (simp add: observed_fisher_of_truncation [OF assms] observed_fisher_claimed_def assms(1))
qed

lemma arcsin_sqrt_estimate:
  assumes "0 \<le> th" and "th \<le> pi / 2"
  shows "arcsin (sqrt ((sin th)\<^sup>2)) = th"
proof -
  have "0 \<le> sin th"
    using assms pi_ge_two by (intro sin_ge_zero) simp_all
  then have "sqrt ((sin th)\<^sup>2) = sin th" by simp
  then show ?thesis
    using assms by (simp add: arcsin_sin)
qed

text \<open>
  C5: the observed Fisher information truncated to the first \<open>m\<close> entries. For the
  result \<open>ex_two\<close> and \<open>m = 1\<close> the squared, rescaled score is \<open>16\<close>; the code divides it
  by \<^verbatim>\<open>len(all_hits)\<close>, which is never truncated and counts both schedule entries,
  and returns \<open>8\<close>, where the normalisation by the one entry of the truncated sum
  gives \<open>16\<close>.
\<close>

theorem observed_fisher_truncated_normalisation:
  "compute_fisher_information ex_two (Some 1) True = 8
   \<and> observed_fisher_claimed ex_two 1 = 16"
proof -
  have "compute_fisher_information ex_two (Some 1) True = 8"
    by (simp add: compute_fisher_information_def ex_two_def py_slice_to_def Let_def
        arcsin_sqrt_half tan_45 sqrt_quarter power_divide)
  moreover have "observed_fisher_claimed ex_two 1 = 16"
    by (simp add: observed_fisher_claimed_def observed_score_def ex_two_def Let_def tan_45
        sqrt_quarter power_divide)
  ultimately show ?thesis by simp
qed

end
